theory Spec2Isabelle
  imports Main
begin

section \<open>The form-preview controller of formtools/preview.py\<close>

text \<open>
  The module defines one class, \<open>FormPreview\<close>: a view object wrapping a form class. The
  web framework calls the object with a request; the object picks one of three handlers
  (\<open>preview_get\<close>, \<open>preview_post\<close>, \<open>post_post\<close>) and returns that handler's response.
  The embedding follows the class method by method. What belongs to the framework
  (template rendering, form validation, the keyed digest) is a field of a record handed
  to the model, and what a subclass may override is a field of a record of hooks.
\<close>

subsection \<open>Exceptions, requests and forms\<close>

text \<open>
  The exceptions the module raises itself are \<open>Http404\<close> (line 32) and
  \<open>NotImplementedError\<close> (line 181). \<open>TypeError\<close> is what Python raises when an
  attribute that is not callable is called (line 33); \<open>Exception\<close> stands for whatever
  else a subclass hook raises.
\<close>

datatype exc = Http404 | NotImplementedError string | TypeError string | Exception string

text \<open>
  \<open>request.POST\<close> and \<open>request.FILES\<close> are read by the controller through \<open>.get\<close> only,
  so each is a finite map from a name to the value \<open>.get\<close> returns. \<open>request.method\<close>
  is the field \<open>http_method\<close>.
\<close>

type_synonym querydict = "string \<rightharpoonup> string"

type_synonym 'v dict = "string \<rightharpoonup> 'v"

record request =
  http_method :: string
  POST :: querydict
  FILES :: querydict

text \<open>
  A form class is owned by the framework. The controller reads the names of its declared
  fields (\<open>base_fields\<close>, a dictionary, kept here as an association list of the name and a
  description of the field) and runs its validation. \<open>full_clean\<close> is that validation:
  from the arguments the form was constructed with (data, files, auto_id, initial and the
  extra keyword parameters) it gives the error list and the cleaned data.
\<close>

record 'v form_args =
  data :: "querydict option"
  files :: "querydict option"
  auto_id :: string
  initial :: "'v dict option"
  extra_params :: "'v dict"

record 'v form_class =
  base_fields :: "(string \<times> string) list"
  full_clean :: "'v form_args \<Rightarrow> (string \<times> string) list \<times> 'v dict"

text \<open>A form instance knows its class and the arguments it was constructed with.\<close>

record 'v form_instance =
  form_cls :: "'v form_class"
  init_args :: "'v form_args"

text \<open>
  The framework's \<open>is_bound\<close>, \<open>errors\<close>, \<open>is_valid()\<close> and \<open>cleaned_data\<close>: a form is
  bound when data or files were given, and valid when it is bound and validation found no
  error.
\<close>

definition is_bound :: "'v form_instance \<Rightarrow> bool" where
  "is_bound f = (data (init_args f) \<noteq> None \<or> files (init_args f) \<noteq> None)"

definition errors :: "'v form_instance \<Rightarrow> (string \<times> string) list" where
  "errors f = (if is_bound f then fst (full_clean (form_cls f) (init_args f)) else [])"

definition is_valid :: "'v form_instance \<Rightarrow> bool" where
  "is_valid f = (is_bound f \<and> errors f = [])"

definition cleaned_data :: "'v form_instance \<Rightarrow> 'v dict" where
  "cleaned_data f = snd (full_clean (form_cls f) (init_args f))"

subsection \<open>The controller object, template contexts and the framework\<close>

text \<open>\<open>__init__\<close> (lines 19-21) gives the object two attributes: the form class and a state dictionary.\<close>

record 'v FormPreview =
  form :: "'v form_class"
  state :: "'v dict"

definition FormPreview_init :: "'v form_class \<Rightarrow> 'v FormPreview" where
  "FormPreview_init f = \<lparr>form = f, state = Map.empty\<rparr>"

text \<open>
  A template context is a dictionary. Its values are a form, a string, a value of the
  application, or the state dictionary of the controller. The last is stored by reference
  in Python (line 117), so the context holds the marker \<open>CState\<close> and the renderer is
  given the dictionary as it is when the template is rendered.
\<close>

datatype 'v ctx_value = CForm "'v form_instance" | CStr string | CState | CVal 'v

type_synonym 'v template_context = "string \<rightharpoonup> 'v ctx_value"

text \<open>
  The framework: \<open>render\<close> (django.shortcuts), the process-wide secret key, and the two
  functions the keyed digest is made of. \<open>'r\<close> is the type of HTTP responses. The
  renderer is given the request, the template's name, the context and the state
  dictionary the context refers to, and answers with a response.
\<close>

record ('v, 'r) env =
  render :: "request \<Rightarrow> string \<Rightarrow> 'v template_context \<Rightarrow> 'v dict \<Rightarrow> 'r"
  SECRET_KEY :: string
  salted_hmac :: "string \<Rightarrow> string \<Rightarrow> string"
  serialize :: "'v dict \<Rightarrow> string"

text \<open>
  \<open>constant_time_compare\<close> (django.utils.crypto) answers whether its two arguments are
  equal. Its running time is not part of this model.
\<close>

definition constant_time_compare :: "string \<Rightarrow> string \<Rightarrow> bool" where
  "constant_time_compare val1 val2 = (val1 = val2)"

text \<open>
  Modelled from the spec: \<open>form_hmac\<close> of formtools/utils.py, which is not among the
  sources. The spec (4.6) describes it as a keyed digest over a canonical serialization of
  the form's cleaned field values, using the process-wide secret key.
\<close>

definition form_hmac :: "('v, 'r) env \<Rightarrow> 'v form_instance \<Rightarrow> string" where
  "form_hmac env f = salted_hmac env (SECRET_KEY env) (serialize env (cleaned_data f))"

subsection \<open>The methods a subclass may override\<close>

text \<open>
  A class is the record of its overridable attributes (lines 14-15 and 96-182). The hooks
  that return a value (\<open>get_auto_id\<close>, \<open>get_initial\<close>, \<open>get_context\<close>, \<open>security_hash\<close>,
  \<open>form_extra_params\<close>) read the object and return that value: as their docstrings
  describe them, they neither raise nor change the object. The hooks that act
  (\<open>parse_params\<close>, \<open>process_preview\<close>, \<open>failed_hash\<close>, \<open>done\<close>) return or raise, and leave
  a state dictionary behind. \<open>process_preview\<close> changes the context it is given in
  place; here it returns the changed context. \<open>failed_hash\<close> and \<open>done\<close> have defaults
  that refer to the object's own class (lines 163 and 181), so \<open>None\<close> means that the
  class inherits the default. \<open>done\<close> is named \<open>done_hook\<close> here.
\<close>

record ('v, 'r) hooks =
  cls_name :: string
  preview_template :: string
  form_template :: string
  get_auto_id :: "'v FormPreview \<Rightarrow> string"
  get_initial :: "'v FormPreview \<Rightarrow> request \<Rightarrow> 'v dict"
  get_context :: "'v FormPreview \<Rightarrow> request \<Rightarrow> 'v form_instance \<Rightarrow> 'v template_context"
  parse_params :: "'v FormPreview \<Rightarrow> request \<Rightarrow> 'v list \<Rightarrow> 'v dict \<Rightarrow> (exc + unit) \<times> 'v dict"
  process_preview ::
    "'v FormPreview \<Rightarrow> request \<Rightarrow> 'v form_instance \<Rightarrow> 'v template_context \<Rightarrow> (exc + 'v template_context) \<times> 'v dict"
  security_hash :: "'v FormPreview \<Rightarrow> request \<Rightarrow> 'v form_instance \<Rightarrow> string"
  failed_hash :: "('v FormPreview \<Rightarrow> request \<Rightarrow> (exc + 'r) \<times> 'v dict) option"
  form_extra_params :: "'v FormPreview \<Rightarrow> request \<Rightarrow> 'v dict"
  done_hook :: "('v FormPreview \<Rightarrow> request \<Rightarrow> 'v dict \<Rightarrow> (exc + 'r) \<times> 'v dict) option"

definition AUTO_ID :: string where
  "AUTO_ID = ''formtools_%s''"

subsection \<open>unused_name (lines 35-49)\<close>

text \<open>
  The loop looks the name up in \<open>base_fields\<close>; \<open>KeyError\<close> ends it, otherwise an underscore
  is appended. Each round makes the name longer, and a name that is a key is no longer than
  all the keys together.
\<close>

function unused_name :: "'v FormPreview \<Rightarrow> string \<Rightarrow> string" where
  "unused_name self name =
     (case map_of (base_fields (form self)) name of
        None \<Rightarrow> name
      | Some _ \<Rightarrow> unused_name self (name @ ''_''))"
  by pat_completeness auto
termination
proof (relation "measure (\<lambda>(self, name).
         Suc (sum_list (map (length \<circ> fst) (base_fields (form self)))) - length name)")
  show "wf (measure (\<lambda>(self :: 'v FormPreview, name).
         Suc (sum_list (map (length \<circ> fst) (base_fields (form self)))) - length name))"
    by simp
next
  fix self :: "'v FormPreview" and name fld
  assume "map_of (base_fields (form self)) name = Some fld"
  then have "(name, fld) \<in> set (base_fields (form self))"
    by (rule map_of_SomeD)
  moreover have "(name, fld) \<in> set kvs \<Longrightarrow> length name \<le> sum_list (map (length \<circ> fst) kvs)"
    for kvs :: "(string \<times> string) list"
    by (induction kvs) auto
  ultimately have "length name \<le> sum_list (map (length \<circ> fst) (base_fields (form self)))"
    by blast
  then show "((self, name @ ''_''), (self, name)) \<in> measure (\<lambda>(self, name).
         Suc (sum_list (map (length \<circ> fst) (base_fields (form self)))) - length name)"
    by simp
qed

declare unused_name.simps [simp del]

subsection \<open>The default methods (lines 98-182)\<close>

definition get_context_default ::
  "'v FormPreview \<Rightarrow> request \<Rightarrow> 'v form_instance \<Rightarrow> 'v template_context" where
  "get_context_default self request f =
     [''form'' \<mapsto> CForm f,
      ''stage_field'' \<mapsto> CStr (unused_name self ''stage''),
      ''state'' \<mapsto> CState]"

text \<open>
  The class \<open>FormPreview\<close> itself: every hook is the default of the source. \<open>parse_params\<close>
  and \<open>process_preview\<close> are \<open>pass\<close>, \<open>security_hash\<close> is \<open>form_hmac(form)\<close>, and
  \<open>failed_hash\<close> and \<open>done\<close> are inherited.
\<close>

definition FormPreview_class :: "('v, 'r) env \<Rightarrow> ('v, 'r) hooks" where
  "FormPreview_class env =
     \<lparr>cls_name = ''FormPreview'',
      preview_template = ''formtools/preview.html'',
      form_template = ''formtools/form.html'',
      get_auto_id = (\<lambda>self. AUTO_ID),
      get_initial = (\<lambda>self request. Map.empty),
      get_context = get_context_default,
      parse_params = (\<lambda>self request args kwargs. (Inr (), state self)),
      process_preview = (\<lambda>self request f context. (Inr context, state self)),
      security_hash = (\<lambda>self request f. form_hmac env f),
      failed_hash = None,
      form_extra_params = (\<lambda>self request. Map.empty),
      done_hook = None\<rparr>"

subsection \<open>The handlers (lines 51-94)\<close>

text \<open>
  A method returns three things: the response or the exception, the object as the method
  leaves it, and the list of the calls it made, in order. The list is how a theorem says
  that a hook was or was not invoked. It has the calls that the methods of \<open>FormPreview\<close>
  make; what an overriding hook calls inside its own body is not in it.
\<close>

datatype 'v event =
    Call_parse_params
  | Call_getattr string
  | Call_preview_get
  | Call_preview_post
  | Call_post_post
  | Call_process_preview
  | Call_security_hash
  | Call_failed_hash
  | Call_done "'v dict"
  | Call_render string

type_synonym ('v, 'r) outcome = "(exc + 'r) \<times> 'v FormPreview \<times> 'v event list"

text \<open>What a method returns when it has made the calls \<open>evs0\<close> and then returns what a call of another method gave.\<close>

definition after_calls :: "'v event list \<Rightarrow> ('v, 'r) outcome \<Rightarrow> ('v, 'r) outcome" where
  "after_calls evs0 out = (case out of (r, self1, evs) \<Rightarrow> (r, self1, evs0 @ evs))"

text \<open>The three forms the handlers construct (lines 53-55, 65-68 and 86).\<close>

definition preview_get_form :: "('v, 'r) hooks \<Rightarrow> 'v FormPreview \<Rightarrow> request \<Rightarrow> 'v form_instance" where
  "preview_get_form cls self request =
     \<lparr>form_cls = form self,
      init_args = \<lparr>data = None, files = None, auto_id = get_auto_id cls self,
              initial = Some (get_initial cls self request),
              extra_params = form_extra_params cls self request\<rparr>\<rparr>"

definition preview_post_form :: "('v, 'r) hooks \<Rightarrow> 'v FormPreview \<Rightarrow> request \<Rightarrow> 'v form_instance" where
  "preview_post_form cls self request =
     \<lparr>form_cls = form self,
      init_args = \<lparr>data = Some (POST request), files = Some (FILES request),
              auto_id = get_auto_id cls self, initial = None,
              extra_params = form_extra_params cls self request\<rparr>\<rparr>"

definition post_post_form :: "('v, 'r) hooks \<Rightarrow> 'v FormPreview \<Rightarrow> request \<Rightarrow> 'v form_instance" where
  "post_post_form cls self request =
     \<lparr>form_cls = form self,
      init_args = \<lparr>data = Some (POST request), files = None,
              auto_id = get_auto_id cls self, initial = None,
              extra_params = form_extra_params cls self request\<rparr>\<rparr>"

definition preview_get ::
  "('v, 'r) hooks \<Rightarrow> ('v, 'r) env \<Rightarrow> 'v FormPreview \<Rightarrow> request \<Rightarrow> ('v, 'r) outcome" where
  "preview_get cls env self request =
     (let f = preview_get_form cls self request
      in (Inr (render env request (form_template cls) (get_context cls self request f) (state self)),
          self,
          [Call_preview_get, Call_render (form_template cls)]))"

definition preview_post ::
  "('v, 'r) hooks \<Rightarrow> ('v, 'r) env \<Rightarrow> 'v FormPreview \<Rightarrow> request \<Rightarrow> ('v, 'r) outcome" where
  "preview_post cls env self request =
     (let f = preview_post_form cls self request;
          context = get_context cls self request f
      in if is_valid f then
           (case process_preview cls self request f context of
              (Inl e, st) \<Rightarrow>
                (Inl e, self\<lparr>state := st\<rparr>, [Call_preview_post, Call_process_preview])
            | (Inr context1, st) \<Rightarrow>
                (let self1 = self\<lparr>state := st\<rparr>;
                     context2 = context1(''hash_field'' \<mapsto> CStr (unused_name self1 ''hash''));
                     context3 = context2(''hash_value'' \<mapsto> CStr (security_hash cls self1 request f))
                 in (Inr (render env request (preview_template cls) context3 (state self1)),
                     self1,
                     [Call_preview_post, Call_process_preview, Call_security_hash,
                      Call_render (preview_template cls)])))
         else
           (Inr (render env request (form_template cls) context (state self)),
            self,
            [Call_preview_post, Call_render (form_template cls)]))"

definition check_security_hash ::
  "('v, 'r) hooks \<Rightarrow> 'v FormPreview \<Rightarrow> string \<Rightarrow> request \<Rightarrow> 'v form_instance \<Rightarrow> bool" where
  "check_security_hash cls self token request f =
     (let expected = security_hash cls self request f
      in constant_time_compare token expected)"

text \<open>
  \<open>self.failed_hash(request)\<close> and \<open>self.done(request, cleaned_data)\<close>: the override of the
  class when there is one, the default otherwise. The default \<open>failed_hash\<close> is
  \<open>preview_post\<close> (line 163); the default \<open>done\<close> raises (line 181).
\<close>

definition call_failed_hash ::
  "('v, 'r) hooks \<Rightarrow> ('v, 'r) env \<Rightarrow> 'v FormPreview \<Rightarrow> request \<Rightarrow> ('v, 'r) outcome" where
  "call_failed_hash cls env self request =
     (case failed_hash cls of
        None \<Rightarrow> preview_post cls env self request
      | Some h \<Rightarrow> (case h self request of (r, st) \<Rightarrow> (r, self\<lparr>state := st\<rparr>, [])))"

definition call_done ::
  "('v, 'r) hooks \<Rightarrow> 'v FormPreview \<Rightarrow> request \<Rightarrow> 'v dict \<Rightarrow> (exc + 'r) \<times> 'v FormPreview" where
  "call_done cls self request cd =
     (case done_hook cls of
        None \<Rightarrow>
          (Inl (NotImplementedError
                  (''You must define a done() method on your '' @ cls_name cls @ '' subclass.'')),
           self)
      | Some h \<Rightarrow> (case h self request cd of (r, st) \<Rightarrow> (r, self\<lparr>state := st\<rparr>)))"

text \<open>The token of line 89: \<open>request.POST.get(self.unused_name('hash'), '')\<close>.\<close>

definition hash_token :: "'v FormPreview \<Rightarrow> request \<Rightarrow> string" where
  "hash_token self request =
     (case POST request (unused_name self ''hash'') of None \<Rightarrow> [] | Some t \<Rightarrow> t)"

definition post_post ::
  "('v, 'r) hooks \<Rightarrow> ('v, 'r) env \<Rightarrow> 'v FormPreview \<Rightarrow> request \<Rightarrow> ('v, 'r) outcome" where
  "post_post cls env self request =
     (let f = post_post_form cls self request
      in if is_valid f then
           (if \<not> check_security_hash cls self (hash_token self request) request f
            then
              after_calls [Call_post_post, Call_security_hash, Call_failed_hash]
                (call_failed_hash cls env self request)
            else
              (case call_done cls self request (cleaned_data f) of
                 (r, self1) \<Rightarrow>
                   (r, self1, [Call_post_post, Call_security_hash, Call_done (cleaned_data f)])))
         else
           (Inr (render env request (form_template cls) (get_context cls self request f) (state self)),
            self,
            [Call_post_post, Call_render (form_template cls)]))"

subsection \<open>The dispatcher (lines 23-33)\<close>

text \<open>\<open>str.lower()\<close> on the ASCII letters an HTTP method is written in.\<close>

definition lower_char :: "char \<Rightarrow> char" where
  "lower_char c =
     (case map_of (zip ''ABCDEFGHIJKLMNOPQRSTUVWXYZ'' ''abcdefghijklmnopqrstuvwxyz'') c of
        None \<Rightarrow> c
      | Some l \<Rightarrow> l)"

definition lower :: "string \<Rightarrow> string" where
  "lower s = map lower_char s"

text \<open>
  \<open>getattr(self, name)\<close> for the names the dispatcher asks for. They begin with
  \<open>preview_\<close> or \<open>post_\<close>, and the attributes of a \<open>FormPreview\<close> object with such a name
  are the three handlers and the class attribute \<open>preview_template\<close> (line 14), which is a
  string. Every other name raises \<open>AttributeError\<close>, the \<open>None\<close> of this function.
\<close>

datatype attribute = Method_preview_get | Method_preview_post | Method_post_post | Str string

definition getattr :: "('v, 'r) hooks \<Rightarrow> string \<Rightarrow> attribute option" where
  "getattr cls name =
     (if name = ''preview_get'' then Some Method_preview_get
      else if name = ''preview_post'' then Some Method_preview_post
      else if name = ''post_post'' then Some Method_post_post
      else if name = ''preview_template'' then Some (Str (preview_template cls))
      else None)"

text \<open>\<open>method(request)\<close> (line 33): calling a string raises \<open>TypeError\<close>.\<close>

definition call_attribute ::
  "('v, 'r) hooks \<Rightarrow> ('v, 'r) env \<Rightarrow> 'v FormPreview \<Rightarrow> attribute \<Rightarrow> request \<Rightarrow> ('v, 'r) outcome" where
  "call_attribute cls env self a request =
     (case a of
        Method_preview_get \<Rightarrow> preview_get cls env self request
      | Method_preview_post \<Rightarrow> preview_post cls env self request
      | Method_post_post \<Rightarrow> post_post cls env self request
      | Str s \<Rightarrow> (Inl (TypeError ''str object is not callable''), self, []))"

text \<open>The stage of lines 24-27: a dictionary lookup with the default \<open>preview\<close>.\<close>

definition stage_of :: "'v FormPreview \<Rightarrow> request \<Rightarrow> string" where
  "stage_of self request =
     (case POST request (unused_name self ''stage'') of
        None \<Rightarrow> ''preview''
      | Some v \<Rightarrow>
          (case map_of [(''1'', ''preview''), (''2'', ''post'')] v of
             None \<Rightarrow> ''preview''
           | Some s \<Rightarrow> s))"

definition FormPreview_call ::
  "('v, 'r) hooks \<Rightarrow> ('v, 'r) env \<Rightarrow> 'v FormPreview \<Rightarrow> request \<Rightarrow> 'v list \<Rightarrow> 'v dict
     \<Rightarrow> ('v, 'r) outcome" where
  "FormPreview_call cls env self request args kwargs =
     (let stage = stage_of self request
      in case parse_params cls self request args kwargs of
           (Inl e, st) \<Rightarrow> (Inl e, self\<lparr>state := st\<rparr>, [Call_parse_params])
         | (Inr u, st) \<Rightarrow>
             (let self1 = self\<lparr>state := st\<rparr>;
                  name = stage @ ''_'' @ lower (http_method request)
              in case getattr cls name of
                   None \<Rightarrow> (Inl Http404, self1, [Call_parse_params, Call_getattr name])
                 | Some a \<Rightarrow>
                     after_calls [Call_parse_params, Call_getattr name]
                       (call_attribute cls env self1 a request)))"

text \<open>
  One object serves every request routed to it (the URLconf of the docstring at line 127
  constructs the object once): the requests are handled one after the other, each by the
  object the one before left.
\<close>

fun serve ::
  "('v, 'r) hooks \<Rightarrow> ('v, 'r) env \<Rightarrow> 'v FormPreview \<Rightarrow> (request \<times> 'v list \<times> 'v dict) list
     \<Rightarrow> (exc + 'r) list \<times> 'v FormPreview" where
  "serve cls env self [] = ([], self)"
| "serve cls env self ((request, args, kwargs) # rest) =
     (case FormPreview_call cls env self request args kwargs of
        (r, self1, evs) \<Rightarrow>
          (case serve cls env self1 rest of (rs, self2) \<Rightarrow> (r # rs, self2)))"

subsection \<open>A form, a framework and a subclass to run the model on\<close>

text \<open>
  A contact form with one required field, \<open>message\<close>, that also declares fields named
  \<open>stage\<close> and \<open>stage_\<close>; a framework whose renderer answers with the name of the
  template and whose digest joins the key and the message; and a subclass that defines
  \<open>done\<close>, as every subclass must.
\<close>

definition contact_form :: "string form_class" where
  "contact_form =
     \<lparr>base_fields =
        [(''message'', ''CharField''), (''stage'', ''CharField''), (''stage_'', ''CharField'')],
      full_clean =
        (\<lambda>a. case data a of
                None \<Rightarrow> ([], Map.empty)
              | Some d \<Rightarrow>
                  (case d ''message'' of
                     None \<Rightarrow> ([(''message'', ''This field is required.'')], Map.empty)
                   | Some m \<Rightarrow> ([], [''message'' \<mapsto> m])))\<rparr>"

definition test_env :: "(string, string) env" where
  "test_env =
     \<lparr>render = (\<lambda>request template context st. template),
      SECRET_KEY = ''k'',
      salted_hmac = (\<lambda>key msg. key @ '':'' @ msg),
      serialize = (\<lambda>cd. case cd ''message'' of None \<Rightarrow> [] | Some m \<Rightarrow> m)\<rparr>"

definition ContactPreview :: "(string, string) hooks" where
  "ContactPreview =
     (FormPreview_class test_env)
       \<lparr>cls_name := ''ContactPreview'',
        done_hook := Some (\<lambda>self request cd. (Inr ''/thanks/'', state self))\<rparr>"

definition forged_confirm :: request where
  "forged_confirm =
     \<lparr>http_method = ''POST'',
      POST = [''stage__'' \<mapsto> ''2'', ''message'' \<mapsto> ''hello'', ''hash'' \<mapsto> ''forged''],
      FILES = Map.empty\<rparr>"

definition honest_confirm :: request where
  "honest_confirm =
     \<lparr>http_method = ''POST'',
      POST = [''stage__'' \<mapsto> ''2'', ''message'' \<mapsto> ''hello'', ''hash'' \<mapsto> ''k:hello''],
      FILES = Map.empty\<rparr>"

definition invalid_preview :: request where
  "invalid_preview =
     \<lparr>http_method = ''POST'', POST = [''stage__'' \<mapsto> ''1''], FILES = Map.empty\<rparr>"

definition invalid_confirm :: request where
  "invalid_confirm =
     \<lparr>http_method = ''POST'', POST = [''stage__'' \<mapsto> ''2'', ''hash'' \<mapsto> ''k:hello''], FILES = Map.empty\<rparr>"

definition valid_preview :: request where
  "valid_preview =
     \<lparr>http_method = ''POST'', POST = [''stage__'' \<mapsto> ''1'', ''message'' \<mapsto> ''hello''],
      FILES = [''attachment'' \<mapsto> ''file bytes'']\<rparr>"

text \<open>
  A GET with no data, a request whose HTTP method is \<open>TEMPLATE\<close>, and a subclass whose
  \<open>parse_params\<close> saves the keyword arguments of the URLconf in the state dictionary, as
  the docstring of \<open>parse_params\<close> describes.
\<close>

definition get_request :: request where
  "get_request = \<lparr>http_method = ''GET'', POST = Map.empty, FILES = Map.empty\<rparr>"

definition template_request :: request where
  "template_request = \<lparr>http_method = ''TEMPLATE'', POST = Map.empty, FILES = Map.empty\<rparr>"

definition UserPreview :: "(string, string) hooks" where
  "UserPreview =
     ContactPreview
       \<lparr>cls_name := ''UserPreview'',
        parse_params := (\<lambda>self request args kwargs. (Inr (), state self ++ kwargs))\<rparr>"

text \<open>
  A framework whose serialization strips the spaces around the message before the digest
  is taken, with the subclass over it; a confirm request whose message has a space more
  than the previewed one and whose hash is the one of the preview; and a subclass that
  overrides \<open>failed_hash\<close>.
\<close>

definition strip_spaces :: "string \<Rightarrow> string" where
  "strip_spaces s =
     rev (dropWhile (\<lambda>c. c = CHR '' '') (rev (dropWhile (\<lambda>c. c = CHR '' '') s)))"

definition stripping_env :: "(string, string) env" where
  "stripping_env =
     test_env\<lparr>serialize := (\<lambda>cd. case cd ''message'' of None \<Rightarrow> [] | Some m \<Rightarrow> strip_spaces m)\<rparr>"

definition StrippingPreview :: "(string, string) hooks" where
  "StrippingPreview =
     (FormPreview_class stripping_env)
       \<lparr>cls_name := ''StrippingPreview'',
        done_hook := Some (\<lambda>self request cd. (Inr ''/thanks/'', state self))\<rparr>"

definition tampered_confirm :: request where
  "tampered_confirm =
     \<lparr>http_method = ''POST'',
      POST = [''stage__'' \<mapsto> ''2'', ''message'' \<mapsto> ''hello '', ''hash'' \<mapsto> ''k:hello''],
      FILES = Map.empty\<rparr>"

definition StrictPreview :: "(string, string) hooks" where
  "StrictPreview =
     ContactPreview
       \<lparr>cls_name := ''StrictPreview'',
        failed_hash := Some (\<lambda>self request. (Inr ''/tampered/'', state self))\<rparr>"

section \<open>Properties\<close>

subsection \<open>Field names that collide with no declared field\<close>

text \<open>
  C5. \<open>unused_name\<close> returns the requested name followed by some number \<open>k\<close> of
  underscores. The result is not a key of the form's \<open>base_fields\<close>, and \<open>k\<close> is the least
  such number: the name followed by fewer underscores is a key every time. So the hidden
  field names made from \<open>stage\<close> and \<open>hash\<close> are never names of declared fields.
\<close>

theorem unused_name_minimal:
  "\<exists>k. unused_name self name = name @ replicate k CHR ''_''
      \<and> unused_name self name \<notin> fst ` set (base_fields (form self))
      \<and> (\<forall>j<k. name @ replicate j CHR ''_'' \<in> fst ` set (base_fields (form self)))"
proof (induction self name rule: unused_name.induct)
  case (1 self name)
  show ?case
  proof (cases "map_of (base_fields (form self)) name")
    case None
    then have res: "unused_name self name = name"
      by (simp add: unused_name.simps)
    from None have "name \<notin> fst ` set (base_fields (form self))"
      by (simp add: map_of_eq_None_iff)
    with res have "unused_name self name = name @ replicate 0 CHR ''_''
      \<and> unused_name self name \<notin> fst ` set (base_fields (form self))
      \<and> (\<forall>j<0. name @ replicate j CHR ''_'' \<in> fst ` set (base_fields (form self)))"
      by simp
    then show ?thesis by blast
  next
    case (Some fld)
    then have res: "unused_name self name = unused_name self (name @ ''_'')"
      by (subst unused_name.simps) simp
    from Some have key: "name \<in> fst ` set (base_fields (form self))"
      by (metis map_of_eq_None_iff option.distinct(1))
    from "1.IH" [OF Some] obtain k where
      k1: "unused_name self (name @ ''_'') = (name @ ''_'') @ replicate k CHR ''_''" and
      k2: "unused_name self (name @ ''_'') \<notin> fst ` set (base_fields (form self))" and
      k3: "\<forall>j<k. (name @ ''_'') @ replicate j CHR ''_'' \<in> fst ` set (base_fields (form self))"
      by blast
    have "\<forall>j<Suc k. name @ replicate j CHR ''_'' \<in> fst ` set (base_fields (form self))"
    proof (intro allI impI)
      fix j assume "j < Suc k"
      show "name @ replicate j CHR ''_'' \<in> fst ` set (base_fields (form self))"
      proof (cases j)
        case 0
        with key show ?thesis by simp
      next
        case (Suc i)
        with \<open>j < Suc k\<close> have "i < k" by simp
        with k3 have "(name @ ''_'') @ replicate i CHR ''_'' \<in> fst ` set (base_fields (form self))"
          by blast
        with Suc show ?thesis by simp
      qed
    qed
    with res k1 k2 have "unused_name self name = name @ replicate (Suc k) CHR ''_''
      \<and> unused_name self name \<notin> fst ` set (base_fields (form self))
      \<and> (\<forall>j<Suc k. name @ replicate j CHR ''_'' \<in> fst ` set (base_fields (form self)))"
      by simp
    then show ?thesis by blast
  qed
qed

theorem unused_name_minimal_witness:
  "unused_name (FormPreview_init contact_form) ''stage'' = ''stage__''
   \<and> (\<exists>k. ''stage__'' = ''stage'' @ replicate k CHR ''_''
      \<and> ''stage__'' \<notin> fst ` set (base_fields contact_form)
      \<and> (\<forall>j<k. ''stage'' @ replicate j CHR ''_'' \<in> fst ` set (base_fields contact_form)))"
proof -
  have ev: "unused_name (FormPreview_init contact_form) ''stage'' = ''stage__''"
    by (simp add: unused_name.simps FormPreview_init_def contact_form_def)
  have fm: "form (FormPreview_init contact_form) = contact_form"
    by (simp add: FormPreview_init_def)
  show ?thesis
    using unused_name_minimal [of "FormPreview_init contact_form" "''stage''"]
    unfolding ev fm by (simp add: ev)
qed

subsection \<open>The confirm handler\<close>

lemma preview_post_no_done:
  "Call_done cd \<notin> set (snd (snd (preview_post cls env self request)))"
  by (simp add: preview_post_def Let_def split: prod.splits sum.splits)

lemma call_failed_hash_no_done:
  "Call_done cd \<notin> set (snd (snd (call_failed_hash cls env self request)))"
  by (simp add: call_failed_hash_def preview_post_no_done split: option.splits prod.splits)

text \<open>
  C1, as the code has it. When the form that \<open>post_post\<close> binds is valid and the token of
  the request is not the hash that \<open>security_hash\<close> gives for that form, \<open>post_post\<close>
  ends as \<open>failed_hash(request)\<close> ends: for a class that inherits \<open>failed_hash\<close> it ends
  as \<open>preview_post\<close> ends on the request, and for a class that overrides it the response
  or exception and the state are the override's. \<open>done\<close> is not among its calls. A request
  is routed to \<open>failed_hash\<close> exactly when its form is valid and its token differs from
  the hash, and to \<open>done\<close> exactly when its form is valid and its token is the hash: a
  changed field value or a forged hash reaches the fallback when it makes the two differ.
\<close>

theorem post_post_hash_mismatch:
  "(is_valid (post_post_form cls self request)
      \<and> hash_token self request \<noteq> security_hash cls self request (post_post_form cls self request)
    \<longrightarrow>
      post_post cls env self request =
        after_calls [Call_post_post, Call_security_hash, Call_failed_hash]
          (call_failed_hash cls env self request)
      \<and> fst (post_post cls env self request) = fst (call_failed_hash cls env self request)
      \<and> (failed_hash cls = None \<longrightarrow>
            post_post cls env self request =
              after_calls [Call_post_post, Call_security_hash, Call_failed_hash]
                (preview_post cls env self request))
      \<and> (\<forall>h. failed_hash cls = Some h \<longrightarrow>
            post_post cls env self request =
              (fst (h self request), self\<lparr>state := snd (h self request)\<rparr>,
               [Call_post_post, Call_security_hash, Call_failed_hash]))
      \<and> (\<forall>cd. Call_done cd \<notin> set (snd (snd (post_post cls env self request)))))
   \<and> (Call_failed_hash \<in> set (snd (snd (post_post cls env self request))) \<longleftrightarrow>
        is_valid (post_post_form cls self request)
        \<and> hash_token self request \<noteq> security_hash cls self request (post_post_form cls self request))
   \<and> ((\<exists>cd. Call_done cd \<in> set (snd (snd (post_post cls env self request)))) \<longleftrightarrow>
        is_valid (post_post_form cls self request)
        \<and> hash_token self request = security_hash cls self request (post_post_form cls self request))"
proof -
  let ?f = "post_post_form cls self request"
  let ?evs = "snd (snd (post_post cls env self request))"
  have chk: "check_security_hash cls self (hash_token self request) request ?f \<longleftrightarrow>
               hash_token self request = security_hash cls self request ?f"
    by (simp add: check_security_hash_def constant_time_compare_def)
  have invalid: "?evs = [Call_post_post, Call_render (form_template cls)]" if "\<not> is_valid ?f"
    using that by (simp add: post_post_def Let_def)
  have match: "?evs = [Call_post_post, Call_security_hash, Call_done (cleaned_data ?f)]"
    if "is_valid ?f" "hash_token self request = security_hash cls self request ?f"
  proof -
    from that(2) chk have "check_security_hash cls self (hash_token self request) request ?f"
      by blast
    with that(1) show ?thesis
      by (simp add: post_post_def Let_def case_prod_beta)
  qed
  have mismatch: "post_post cls env self request =
        after_calls [Call_post_post, Call_security_hash, Call_failed_hash]
          (call_failed_hash cls env self request)"
    if "is_valid ?f" "hash_token self request \<noteq> security_hash cls self request ?f"
  proof -
    from that(2) chk have "\<not> check_security_hash cls self (hash_token self request) request ?f"
      by blast
    with that(1) show ?thesis
      by (simp add: post_post_def Let_def)
  qed
  have mis_evs: "?evs = [Call_post_post, Call_security_hash, Call_failed_hash]
                   @ snd (snd (call_failed_hash cls env self request))"
    if "is_valid ?f" "hash_token self request \<noteq> security_hash cls self request ?f"
    using mismatch [OF that] by (simp add: after_calls_def case_prod_beta)
  have mis_fst: "fst (post_post cls env self request) = fst (call_failed_hash cls env self request)"
    if "is_valid ?f" "hash_token self request \<noteq> security_hash cls self request ?f"
    using mismatch [OF that] by (simp add: after_calls_def case_prod_beta)
  have inherit: "call_failed_hash cls env self request = preview_post cls env self request"
    if "failed_hash cls = None"
    using that by (simp add: call_failed_hash_def)
  have override: "after_calls [Call_post_post, Call_security_hash, Call_failed_hash]
                    (call_failed_hash cls env self request) =
              (fst (h self request), self\<lparr>state := snd (h self request)\<rparr>,
               [Call_post_post, Call_security_hash, Call_failed_hash])"
    if "failed_hash cls = Some h" for h
    using that by (simp add: call_failed_hash_def after_calls_def case_prod_beta)
  have no_done: "Call_done cd \<notin> set ?evs"
    if "is_valid ?f" "hash_token self request \<noteq> security_hash cls self request ?f" for cd
    using mis_evs [OF that] call_failed_hash_no_done [of cd cls env self request] by simp
  have branch: "is_valid ?f \<and> hash_token self request \<noteq> security_hash cls self request ?f
    \<longrightarrow>
      post_post cls env self request =
        after_calls [Call_post_post, Call_security_hash, Call_failed_hash]
          (call_failed_hash cls env self request)
      \<and> fst (post_post cls env self request) = fst (call_failed_hash cls env self request)
      \<and> (failed_hash cls = None \<longrightarrow>
            post_post cls env self request =
              after_calls [Call_post_post, Call_security_hash, Call_failed_hash]
                (preview_post cls env self request))
      \<and> (\<forall>h. failed_hash cls = Some h \<longrightarrow>
            post_post cls env self request =
              (fst (h self request), self\<lparr>state := snd (h self request)\<rparr>,
               [Call_post_post, Call_security_hash, Call_failed_hash]))
      \<and> (\<forall>cd. Call_done cd \<notin> set ?evs)"
    using mismatch mis_fst inherit override no_done by simp
  have fh_iff: "Call_failed_hash \<in> set ?evs \<longleftrightarrow>
        is_valid ?f \<and> hash_token self request \<noteq> security_hash cls self request ?f"
  proof (cases "is_valid ?f")
    case False
    then show ?thesis by (simp add: invalid)
  next
    case True
    show ?thesis
    proof (cases "hash_token self request = security_hash cls self request ?f")
      case True
      with \<open>is_valid ?f\<close> show ?thesis by (simp add: match)
    next
      case False
      with \<open>is_valid ?f\<close> show ?thesis by (simp add: mis_evs)
    qed
  qed
  have done_iff: "(\<exists>cd. Call_done cd \<in> set ?evs) \<longleftrightarrow>
        is_valid ?f \<and> hash_token self request = security_hash cls self request ?f"
  proof (cases "is_valid ?f")
    case False
    then show ?thesis by (simp add: invalid)
  next
    case True
    show ?thesis
    proof (cases "hash_token self request = security_hash cls self request ?f")
      case True
      with \<open>is_valid ?f\<close> show ?thesis by (simp add: match)
    next
      case False
      with \<open>is_valid ?f\<close> no_done show ?thesis by blast
    qed
  qed
  from branch fh_iff done_iff show ?thesis by blast
qed

theorem post_post_hash_mismatch_witness:
  "is_valid (post_post_form ContactPreview (FormPreview_init contact_form) forged_confirm)
   \<and> hash_token (FormPreview_init contact_form) forged_confirm = ''forged''
   \<and> security_hash ContactPreview (FormPreview_init contact_form) forged_confirm
        (post_post_form ContactPreview (FormPreview_init contact_form) forged_confirm) = ''k:hello''
   \<and> failed_hash ContactPreview = None
   \<and> post_post ContactPreview test_env (FormPreview_init contact_form) forged_confirm =
       (Inr ''formtools/preview.html'', FormPreview_init contact_form,
        [Call_post_post, Call_security_hash, Call_failed_hash, Call_preview_post,
         Call_process_preview, Call_security_hash, Call_render ''formtools/preview.html''])
   \<and> post_post StrictPreview test_env (FormPreview_init contact_form) forged_confirm =
       (Inr ''/tampered/'', FormPreview_init contact_form,
        [Call_post_post, Call_security_hash, Call_failed_hash])
   \<and> Call_failed_hash \<in> set (snd (snd
         (post_post ContactPreview test_env (FormPreview_init contact_form) forged_confirm)))"
proof -
  let ?S = "FormPreview_init contact_form"
  have v: "is_valid (post_post_form c ?S forged_confirm)" for c :: "(string, string) hooks"
    by (simp add: post_post_form_def is_valid_def is_bound_def errors_def
          FormPreview_init_def contact_form_def forged_confirm_def)
  have t: "hash_token ?S forged_confirm = ''forged''"
    by (simp add: hash_token_def unused_name.simps FormPreview_init_def contact_form_def
          forged_confirm_def)
  have h: "security_hash ContactPreview ?S forged_confirm
             (post_post_form ContactPreview ?S forged_confirm) = ''k:hello''"
    by (simp add: post_post_form_def form_hmac_def cleaned_data_def ContactPreview_def
          FormPreview_class_def test_env_def FormPreview_init_def contact_form_def
          forged_confirm_def)
  have h': "security_hash StrictPreview ?S forged_confirm
             (post_post_form StrictPreview ?S forged_confirm) = ''k:hello''"
    by (simp add: post_post_form_def form_hmac_def cleaned_data_def StrictPreview_def
          ContactPreview_def FormPreview_class_def test_env_def FormPreview_init_def
          contact_form_def forged_confirm_def)
  have inh: "failed_hash ContactPreview = None"
    by (simp add: ContactPreview_def FormPreview_class_def)
  have ovr: "failed_hash StrictPreview = Some (\<lambda>self request. (Inr ''/tampered/'', state self))"
    by (simp add: StrictPreview_def)
  have pv: "preview_post ContactPreview test_env ?S forged_confirm =
              (Inr ''formtools/preview.html'', ?S,
               [Call_preview_post, Call_process_preview, Call_security_hash,
                Call_render ''formtools/preview.html''])"
    by (simp add: preview_post_def preview_post_form_def is_valid_def is_bound_def errors_def
          Let_def ContactPreview_def FormPreview_class_def test_env_def FormPreview_init_def
          contact_form_def forged_confirm_def)
  have same: "?S\<lparr>state := state ?S\<rparr> = ?S"
    by simp
  note A = post_post_hash_mismatch [where cls = ContactPreview and self = ?S
      and request = forged_confirm and env = test_env]
  note B = post_post_hash_mismatch [where cls = StrictPreview and self = ?S
      and request = forged_confirm and env = test_env]
  have ne: "hash_token ?S forged_confirm \<noteq>
              security_hash ContactPreview ?S forged_confirm
                (post_post_form ContactPreview ?S forged_confirm)"
    unfolding t h by simp
  have ne': "hash_token ?S forged_confirm \<noteq>
              security_hash StrictPreview ?S forged_confirm
                (post_post_form StrictPreview ?S forged_confirm)"
    unfolding t h' by simp
  from A v [of ContactPreview] ne inh
  have "post_post ContactPreview test_env ?S forged_confirm =
          after_calls [Call_post_post, Call_security_hash, Call_failed_hash]
            (preview_post ContactPreview test_env ?S forged_confirm)"
    by blast
  then have p1: "post_post ContactPreview test_env ?S forged_confirm =
       (Inr ''formtools/preview.html'', ?S,
        [Call_post_post, Call_security_hash, Call_failed_hash, Call_preview_post,
         Call_process_preview, Call_security_hash, Call_render ''formtools/preview.html''])"
    by (simp add: pv after_calls_def)
  from B v [of StrictPreview] ne' ovr
  have "post_post StrictPreview test_env ?S forged_confirm =
          (fst ((\<lambda>self request. (Inr ''/tampered/'', state self)) ?S forged_confirm),
           ?S\<lparr>state := snd ((\<lambda>self request. (Inr ''/tampered/'' :: exc + string, state self))
                               ?S forged_confirm)\<rparr>,
           [Call_post_post, Call_security_hash, Call_failed_hash])"
    by blast
  then have p2: "post_post StrictPreview test_env ?S forged_confirm =
       (Inr ''/tampered/'', ?S, [Call_post_post, Call_security_hash, Call_failed_hash])"
    by (simp add: same)
  from A v [of ContactPreview] ne
  have p3: "Call_failed_hash \<in> set (snd (snd (post_post ContactPreview test_env ?S forged_confirm)))"
    by blast
  from v [of ContactPreview] t h inh p1 p2 p3 show ?thesis by simp
qed

text \<open>
  C1, as it is stated, fails in its last clause: not every changed field value is routed
  to the fallback. Here the previewed message is \<open>hello\<close> and the confirmed one has a
  space appended; the serialization does not tell them apart, the hash of the preview
  still matches, and \<open>done\<close> is called with the changed message.
\<close>

theorem tampered_value_reaches_done_counterexample:
  "POST valid_preview ''message'' = Some ''hello''
   \<and> security_hash StrippingPreview (FormPreview_init contact_form) valid_preview
        (preview_post_form StrippingPreview (FormPreview_init contact_form) valid_preview) = ''k:hello''
   \<and> POST tampered_confirm ''message'' = Some ''hello ''
   \<and> hash_token (FormPreview_init contact_form) tampered_confirm = ''k:hello''
   \<and> post_post StrippingPreview stripping_env (FormPreview_init contact_form) tampered_confirm =
       (Inr ''/thanks/'', FormPreview_init contact_form,
        [Call_post_post, Call_security_hash, Call_done [''message'' \<mapsto> ''hello '']])"
proof -
  let ?S = "FormPreview_init contact_form"
  have m1: "POST valid_preview ''message'' = Some ''hello''"
    by (simp add: valid_preview_def)
  have h1: "security_hash StrippingPreview ?S valid_preview
              (preview_post_form StrippingPreview ?S valid_preview) = ''k:hello''"
    by (simp add: preview_post_form_def form_hmac_def cleaned_data_def StrippingPreview_def
          FormPreview_class_def stripping_env_def test_env_def strip_spaces_def
          FormPreview_init_def contact_form_def valid_preview_def)
  have m2: "POST tampered_confirm ''message'' = Some ''hello ''"
    by (simp add: tampered_confirm_def)
  have t: "hash_token ?S tampered_confirm = ''k:hello''"
    by (simp add: hash_token_def unused_name.simps FormPreview_init_def contact_form_def
          tampered_confirm_def)
  have pp: "post_post StrippingPreview stripping_env ?S tampered_confirm =
       (Inr ''/thanks/'', ?S,
        [Call_post_post, Call_security_hash, Call_done [''message'' \<mapsto> ''hello '']])"
    by (simp add: post_post_def post_post_form_def is_valid_def is_bound_def errors_def
          check_security_hash_def constant_time_compare_def t cleaned_data_def call_done_def
          form_hmac_def Let_def)
       (simp add: StrippingPreview_def FormPreview_class_def stripping_env_def test_env_def
          strip_spaces_def FormPreview_init_def contact_form_def tampered_confirm_def
          form_hmac_def cleaned_data_def)
  from m1 h1 m2 t pp show ?thesis by simp
qed

text \<open>
  C2. When the form that \<open>post_post\<close> binds is valid and the token of the request is the
  hash that \<open>security_hash\<close> gives for that form, \<open>post_post\<close> returns what
  \<open>done(request, form.cleaned_data)\<close> returns: its calls are the hash check and one call
  of \<open>done\<close> with the cleaned data of that form, and for a class that defines \<open>done\<close> the
  response or exception is the one its \<open>done\<close> gives on the request and the cleaned data.
\<close>

theorem post_post_hash_match:
  assumes "is_valid (post_post_form cls self request)"
      and "hash_token self request = security_hash cls self request (post_post_form cls self request)"
  shows "post_post cls env self request =
           (fst (call_done cls self request (cleaned_data (post_post_form cls self request))),
            snd (call_done cls self request (cleaned_data (post_post_form cls self request))),
            [Call_post_post, Call_security_hash,
             Call_done (cleaned_data (post_post_form cls self request))])
       \<and> (\<forall>h. done_hook cls = Some h \<longrightarrow>
             fst (post_post cls env self request) =
               fst (h self request (cleaned_data (post_post_form cls self request))))"
proof -
  have chk: "check_security_hash cls self (hash_token self request) request
               (post_post_form cls self request)"
    using assms(2) by (simp add: check_security_hash_def constant_time_compare_def)
  have pp: "post_post cls env self request =
           (fst (call_done cls self request (cleaned_data (post_post_form cls self request))),
            snd (call_done cls self request (cleaned_data (post_post_form cls self request))),
            [Call_post_post, Call_security_hash,
             Call_done (cleaned_data (post_post_form cls self request))])"
    using assms(1) chk by (simp add: post_post_def Let_def split: prod.splits)
  have "fst (call_done cls self request cd) = fst (h self request cd)"
    if "done_hook cls = Some h" for h cd
    using that by (simp add: call_done_def split: prod.splits)
  with pp show ?thesis by simp
qed

theorem post_post_hash_match_witness:
  "is_valid (post_post_form ContactPreview (FormPreview_init contact_form) honest_confirm)
   \<and> hash_token (FormPreview_init contact_form) honest_confirm =
       security_hash ContactPreview (FormPreview_init contact_form) honest_confirm
         (post_post_form ContactPreview (FormPreview_init contact_form) honest_confirm)
   \<and> post_post ContactPreview test_env (FormPreview_init contact_form) honest_confirm =
       (Inr ''/thanks/'', FormPreview_init contact_form,
        [Call_post_post, Call_security_hash, Call_done [''message'' \<mapsto> ''hello'']])"
proof -
  have v: "is_valid (post_post_form ContactPreview (FormPreview_init contact_form) honest_confirm)"
    by (simp add: post_post_form_def is_valid_def is_bound_def errors_def
          FormPreview_init_def contact_form_def honest_confirm_def)
  have t: "hash_token (FormPreview_init contact_form) honest_confirm =
       security_hash ContactPreview (FormPreview_init contact_form) honest_confirm
         (post_post_form ContactPreview (FormPreview_init contact_form) honest_confirm)"
    by (simp add: hash_token_def unused_name.simps post_post_form_def form_hmac_def
          cleaned_data_def ContactPreview_def FormPreview_class_def test_env_def
          FormPreview_init_def contact_form_def honest_confirm_def)
  have cd: "cleaned_data (post_post_form ContactPreview (FormPreview_init contact_form) honest_confirm)
             = [''message'' \<mapsto> ''hello'']"
    by (simp add: post_post_form_def cleaned_data_def FormPreview_init_def contact_form_def
          honest_confirm_def)
  have dn: "call_done ContactPreview (FormPreview_init contact_form) honest_confirm
              [''message'' \<mapsto> ''hello''] = (Inr ''/thanks/'', FormPreview_init contact_form)"
    by (simp add: call_done_def ContactPreview_def FormPreview_class_def FormPreview_init_def)
  from post_post_hash_match [OF v t, of test_env] v t show ?thesis
    unfolding cd dn by simp
qed

subsection \<open>Invalid data\<close>

text \<open>
  C6. When the form a POST handler binds is not valid, the handler returns normally: its
  response is the form template rendered with the context \<open>get_context\<close> gives for the
  bound form, the object is as it was, and the handler's calls are its own entry and that
  rendering, so neither \<open>security_hash\<close> nor \<open>process_preview\<close> nor \<open>done\<close> is called.
  The form is bound in both handlers, and the default context has it under \<open>form\<close>.
\<close>

theorem invalid_post_rerenders_form:
  "(\<not> is_valid (preview_post_form cls self request) \<longrightarrow>
      preview_post cls env self request =
        (Inr (render env request (form_template cls)
               (get_context cls self request (preview_post_form cls self request)) (state self)),
         self,
         [Call_preview_post, Call_render (form_template cls)]))
   \<and> (\<not> is_valid (post_post_form cls self request) \<longrightarrow>
      post_post cls env self request =
        (Inr (render env request (form_template cls)
               (get_context cls self request (post_post_form cls self request)) (state self)),
         self,
         [Call_post_post, Call_render (form_template cls)]))
   \<and> is_bound (preview_post_form cls self request)
   \<and> is_bound (post_post_form cls self request)
   \<and> get_context_default self request f ''form'' = Some (CForm f)"
  by (simp add: preview_post_def post_post_def Let_def is_bound_def preview_post_form_def
        post_post_form_def get_context_default_def)

theorem invalid_post_rerenders_form_witness:
  "\<not> is_valid (preview_post_form ContactPreview (FormPreview_init contact_form) invalid_preview)
   \<and> preview_post ContactPreview test_env (FormPreview_init contact_form) invalid_preview =
        (Inr ''formtools/form.html'', FormPreview_init contact_form,
         [Call_preview_post, Call_render ''formtools/form.html''])
   \<and> \<not> is_valid (post_post_form ContactPreview (FormPreview_init contact_form) invalid_confirm)
   \<and> post_post ContactPreview test_env (FormPreview_init contact_form) invalid_confirm =
        (Inr ''formtools/form.html'', FormPreview_init contact_form,
         [Call_post_post, Call_render ''formtools/form.html''])"
proof -
  have v1: "\<not> is_valid (preview_post_form ContactPreview (FormPreview_init contact_form) invalid_preview)"
    by (simp add: preview_post_form_def is_valid_def is_bound_def errors_def
          FormPreview_init_def contact_form_def invalid_preview_def)
  have v2: "\<not> is_valid (post_post_form ContactPreview (FormPreview_init contact_form) invalid_confirm)"
    by (simp add: post_post_form_def is_valid_def is_bound_def errors_def
          FormPreview_init_def contact_form_def invalid_confirm_def)
  have r: "render test_env rq t c s = t" for rq t c s
    by (simp add: test_env_def)
  have ft: "form_template ContactPreview = ''formtools/form.html''"
    by (simp add: ContactPreview_def FormPreview_class_def)
  from invalid_post_rerenders_form [where cls = ContactPreview
      and self = "FormPreview_init contact_form" and request = invalid_preview
      and env = test_env] v1
  have p1: "preview_post ContactPreview test_env (FormPreview_init contact_form) invalid_preview =
        (Inr ''formtools/form.html'', FormPreview_init contact_form,
         [Call_preview_post, Call_render ''formtools/form.html''])"
    by (simp add: r ft)
  from invalid_post_rerenders_form [where cls = ContactPreview
      and self = "FormPreview_init contact_form" and request = invalid_confirm
      and env = test_env] v2
  have p2: "post_post ContactPreview test_env (FormPreview_init contact_form) invalid_confirm =
        (Inr ''formtools/form.html'', FormPreview_init contact_form,
         [Call_post_post, Call_render ''formtools/form.html''])"
    by (simp add: r ft)
  from v1 v2 p1 p2 show ?thesis by simp
qed

subsection \<open>The hash of the preview page\<close>



subsection \<open>The files of a request at the confirm stage\<close>

lemma unused_stage_contact: "unused_name (FormPreview_init contact_form) ''stage'' = ''stage__''"
  by (simp add: unused_name.simps FormPreview_init_def contact_form_def)

lemma unused_hash_contact: "unused_name (FormPreview_init contact_form) ''hash'' = ''hash''"
  by (simp add: unused_name.simps FormPreview_init_def contact_form_def)

lemma honest_confirm_outcome:
  "post_post ContactPreview test_env (FormPreview_init contact_form) honest_confirm =
     (Inr ''/thanks/'', FormPreview_init contact_form,
      [Call_post_post, Call_security_hash, Call_done [''message'' \<mapsto> ''hello'']])"
  by (simp add: post_post_def post_post_form_def is_valid_def is_bound_def errors_def
        check_security_hash_def constant_time_compare_def hash_token_def unused_hash_contact
        cleaned_data_def call_done_def form_hmac_def Let_def)
     (simp add: ContactPreview_def FormPreview_class_def test_env_def FormPreview_init_def
        contact_form_def honest_confirm_def form_hmac_def cleaned_data_def)

lemma post_post_done_payload:
  assumes "Call_done cd \<in> set (snd (snd (post_post cls env self request)))"
  shows "cd = cleaned_data (post_post_form cls self request)"
proof (cases "is_valid (post_post_form cls self request)")
  case False
  with assms show ?thesis by (simp add: post_post_def Let_def)
next
  case True
  show ?thesis
  proof (cases "check_security_hash cls self (hash_token self request) request
                  (post_post_form cls self request)")
    case True
    with \<open>is_valid (post_post_form cls self request)\<close> assms show ?thesis
      by (simp add: post_post_def Let_def split: prod.splits)
  next
    case False
    obtain r self1 evs where fh: "call_failed_hash cls env self request = (r, self1, evs)"
      by (cases "call_failed_hash cls env self request") auto
    with False \<open>is_valid (post_post_form cls self request)\<close> assms
    have "Call_done cd \<in> set evs"
      by (simp add: post_post_def Let_def after_calls_def)
    with call_failed_hash_no_done [of cd cls env self request] fh show ?thesis by simp
  qed
qed

text \<open>
  C10. The form that \<open>post_post\<close> binds has the POST data of the request as its data and
  no files; the form that \<open>preview_post\<close> binds has the POST data and the uploaded
  files. When \<open>form_extra_params\<close> does not look at the files either, the form of
  \<open>post_post\<close> is the same whatever files the request carries, and every call of \<open>done\<close>
  that \<open>post_post\<close> makes passes the cleaned data of that form.
\<close>

theorem confirm_binds_without_files:
  "files (init_args (post_post_form cls self request)) = None
   \<and> data (init_args (post_post_form cls self request)) = Some (POST request)
   \<and> files (init_args (preview_post_form cls self request)) = Some (FILES request)
   \<and> data (init_args (preview_post_form cls self request)) = Some (POST request)
   \<and> (form_extra_params cls self (request\<lparr>FILES := fs\<rparr>) = form_extra_params cls self request
        \<longrightarrow> post_post_form cls self (request\<lparr>FILES := fs\<rparr>) = post_post_form cls self request)
   \<and> (\<forall>cd. Call_done cd \<in> set (snd (snd (post_post cls env self request)))
        \<longrightarrow> cd = cleaned_data (post_post_form cls self request))"
proof -
  have "cd = cleaned_data (post_post_form cls self request)"
    if "Call_done cd \<in> set (snd (snd (post_post cls env self request)))" for cd
    using that by (rule post_post_done_payload)
  then show ?thesis
    by (simp add: post_post_form_def preview_post_form_def)
qed

theorem confirm_binds_without_files_witness:
  "form_extra_params ContactPreview (FormPreview_init contact_form)
      (honest_confirm\<lparr>FILES := [''attachment'' \<mapsto> ''file bytes'']\<rparr>) =
     form_extra_params ContactPreview (FormPreview_init contact_form) honest_confirm
   \<and> post_post_form ContactPreview (FormPreview_init contact_form)
        (honest_confirm\<lparr>FILES := [''attachment'' \<mapsto> ''file bytes'']\<rparr>) =
       post_post_form ContactPreview (FormPreview_init contact_form) honest_confirm
   \<and> Call_done [''message'' \<mapsto> ''hello''] \<in> set (snd (snd
         (post_post ContactPreview test_env (FormPreview_init contact_form) honest_confirm)))
   \<and> [''message'' \<mapsto> ''hello''] =
       cleaned_data (post_post_form ContactPreview (FormPreview_init contact_form) honest_confirm)"
proof -
  have ex: "form_extra_params ContactPreview (FormPreview_init contact_form)
      (honest_confirm\<lparr>FILES := [''attachment'' \<mapsto> ''file bytes'']\<rparr>) =
     form_extra_params ContactPreview (FormPreview_init contact_form) honest_confirm"
    by (simp add: ContactPreview_def FormPreview_class_def)
  have dn: "Call_done [''message'' \<mapsto> ''hello''] \<in> set (snd (snd
         (post_post ContactPreview test_env (FormPreview_init contact_form) honest_confirm)))"
    by (simp add: honest_confirm_outcome)
  from confirm_binds_without_files [where cls = ContactPreview
      and self = "FormPreview_init contact_form" and request = honest_confirm
      and env = test_env and fs = "[''attachment'' \<mapsto> ''file bytes'']"] ex dn
  show ?thesis by blast
qed

subsection \<open>The dispatcher\<close>

lemma lower_GET: "lower ''GET'' = ''get''"
  by (simp add: lower_def lower_char_def)

text \<open>
  C4. The stage is \<open>post\<close> exactly when the POST data has the value \<open>2\<close> under the name
  \<open>unused_name\<close> gives for \<open>stage\<close>, and \<open>preview\<close> in every other case. When
  \<open>parse_params\<close> returns and the stage, an underscore and the lower-cased HTTP method
  spell the name of a handler, the dispatcher ends as that handler ends on the request,
  after its own two calls. A GET with no stage field ends as \<open>preview_get\<close>: the form
  template rendered with the context of an unbound form.
\<close>

theorem dispatch_by_stage_and_method:
  "(stage_of self request = ''post'' \<longleftrightarrow> POST request (unused_name self ''stage'') = Some ''2'')
   \<and> (stage_of self request \<noteq> ''post'' \<longrightarrow> stage_of self request = ''preview'')
   \<and> (\<forall>u st. parse_params cls self request args kwargs = (Inr u, st) \<longrightarrow>
        (let name = stage_of self request @ ''_'' @ lower (http_method request);
             self1 = self\<lparr>state := st\<rparr>
         in (name = ''preview_get'' \<longrightarrow>
               FormPreview_call cls env self request args kwargs =
                 after_calls [Call_parse_params, Call_getattr name] (preview_get cls env self1 request))
          \<and> (name = ''preview_post'' \<longrightarrow>
               FormPreview_call cls env self request args kwargs =
                 after_calls [Call_parse_params, Call_getattr name] (preview_post cls env self1 request))
          \<and> (name = ''post_post'' \<longrightarrow>
               FormPreview_call cls env self request args kwargs =
                 after_calls [Call_parse_params, Call_getattr name] (post_post cls env self1 request))))
   \<and> (\<forall>u st. parse_params cls self request args kwargs = (Inr u, st)
          \<and> http_method request = ''GET''
          \<and> POST request (unused_name self ''stage'') = None \<longrightarrow>
        FormPreview_call cls env self request args kwargs =
          (Inr (render env request (form_template cls)
                  (get_context cls (self\<lparr>state := st\<rparr>) request
                     (preview_get_form cls (self\<lparr>state := st\<rparr>) request))
                  st),
           self\<lparr>state := st\<rparr>,
           [Call_parse_params, Call_getattr ''preview_get'', Call_preview_get,
            Call_render (form_template cls)]))
   \<and> \<not> is_bound (preview_get_form cls self request)"
proof -
  have stage_post: "stage_of self request = ''post'' \<longleftrightarrow>
                      POST request (unused_name self ''stage'') = Some ''2''"
    by (auto simp: stage_of_def split: option.splits if_splits)
  have stage_two: "stage_of self request \<noteq> ''post'' \<longrightarrow> stage_of self request = ''preview''"
    by (auto simp: stage_of_def split: option.splits if_splits)
  have disp: "FormPreview_call cls env self request args kwargs =
                after_calls [Call_parse_params,
                             Call_getattr (stage_of self request @ ''_'' @ lower (http_method request))]
                  (call_attribute cls env (self\<lparr>state := st\<rparr>) a request)"
    if "parse_params cls self request args kwargs = (Inr u, st)"
      and "getattr cls (stage_of self request @ ''_'' @ lower (http_method request)) = Some a"
    for u st a
    using that by (simp add: FormPreview_call_def Let_def)
  have handlers: "\<forall>u st. parse_params cls self request args kwargs = (Inr u, st) \<longrightarrow>
        (let name = stage_of self request @ ''_'' @ lower (http_method request);
             self1 = self\<lparr>state := st\<rparr>
         in (name = ''preview_get'' \<longrightarrow>
               FormPreview_call cls env self request args kwargs =
                 after_calls [Call_parse_params, Call_getattr name] (preview_get cls env self1 request))
          \<and> (name = ''preview_post'' \<longrightarrow>
               FormPreview_call cls env self request args kwargs =
                 after_calls [Call_parse_params, Call_getattr name] (preview_post cls env self1 request))
          \<and> (name = ''post_post'' \<longrightarrow>
               FormPreview_call cls env self request args kwargs =
                 after_calls [Call_parse_params, Call_getattr name] (post_post cls env self1 request)))"
    unfolding Let_def
  proof (intro allI impI conjI)
    fix u st
    assume pp: "parse_params cls self request args kwargs = (Inr u, st)"
    {
      assume n: "stage_of self request @ ''_'' @ lower (http_method request) = ''preview_get''"
      then have "getattr cls (stage_of self request @ ''_'' @ lower (http_method request)) =
                   Some Method_preview_get"
        by (simp add: getattr_def)
      from disp [OF pp this]
      show "FormPreview_call cls env self request args kwargs =
              after_calls [Call_parse_params,
                 Call_getattr (stage_of self request @ ''_'' @ lower (http_method request))]
                (preview_get cls env (self\<lparr>state := st\<rparr>) request)"
        by (simp add: call_attribute_def)
    }
    {
      assume n: "stage_of self request @ ''_'' @ lower (http_method request) = ''preview_post''"
      then have "getattr cls (stage_of self request @ ''_'' @ lower (http_method request)) =
                   Some Method_preview_post"
        by (simp add: getattr_def)
      from disp [OF pp this]
      show "FormPreview_call cls env self request args kwargs =
              after_calls [Call_parse_params,
                 Call_getattr (stage_of self request @ ''_'' @ lower (http_method request))]
                (preview_post cls env (self\<lparr>state := st\<rparr>) request)"
        by (simp add: call_attribute_def)
    }
    {
      assume n: "stage_of self request @ ''_'' @ lower (http_method request) = ''post_post''"
      then have "getattr cls (stage_of self request @ ''_'' @ lower (http_method request)) =
                   Some Method_post_post"
        by (simp add: getattr_def)
      from disp [OF pp this]
      show "FormPreview_call cls env self request args kwargs =
              after_calls [Call_parse_params,
                 Call_getattr (stage_of self request @ ''_'' @ lower (http_method request))]
                (post_post cls env (self\<lparr>state := st\<rparr>) request)"
        by (simp add: call_attribute_def)
    }
  qed
  have get: "FormPreview_call cls env self request args kwargs =
          (Inr (render env request (form_template cls)
                  (get_context cls (self\<lparr>state := st\<rparr>) request
                     (preview_get_form cls (self\<lparr>state := st\<rparr>) request))
                  st),
           self\<lparr>state := st\<rparr>,
           [Call_parse_params, Call_getattr ''preview_get'', Call_preview_get,
            Call_render (form_template cls)])"
    if pp: "parse_params cls self request args kwargs = (Inr u, st)"
      and m: "http_method request = ''GET''"
      and ns: "POST request (unused_name self ''stage'') = None"
    for u st
  proof -
    from ns have st: "stage_of self request = ''preview''"
      by (simp add: stage_of_def)
    have nm: "stage_of self request @ ''_'' @ lower (http_method request) = ''preview_get''"
      by (simp add: st m lower_GET)
    have ga: "getattr cls (stage_of self request @ ''_'' @ lower (http_method request)) =
                Some Method_preview_get"
      unfolding nm by (simp add: getattr_def)
    from disp [OF pp ga] show ?thesis
      unfolding nm by (simp add: call_attribute_def preview_get_def after_calls_def Let_def)
  qed
  have unbound: "\<not> is_bound (preview_get_form cls self request)"
    by (simp add: is_bound_def preview_get_form_def)
  from stage_post stage_two handlers get unbound show ?thesis by blast
qed

theorem dispatch_by_stage_and_method_witness:
  "stage_of (FormPreview_init contact_form) honest_confirm = ''post''
   \<and> POST honest_confirm (unused_name (FormPreview_init contact_form) ''stage'') = Some ''2''
   \<and> stage_of (FormPreview_init contact_form) valid_preview = ''preview''
   \<and> FormPreview_call ContactPreview test_env (FormPreview_init contact_form) honest_confirm [] Map.empty =
       after_calls [Call_parse_params, Call_getattr ''post_post'']
         (post_post ContactPreview test_env (FormPreview_init contact_form) honest_confirm)
   \<and> FormPreview_call ContactPreview test_env (FormPreview_init contact_form) get_request [] Map.empty =
       (Inr ''formtools/form.html'', FormPreview_init contact_form,
        [Call_parse_params, Call_getattr ''preview_get'', Call_preview_get,
         Call_render ''formtools/form.html''])"
proof -
  let ?S = "FormPreview_init contact_form"
  have two: "POST honest_confirm (unused_name ?S ''stage'') = Some ''2''"
    by (simp add: unused_stage_contact honest_confirm_def)
  have one: "POST valid_preview (unused_name ?S ''stage'') \<noteq> Some ''2''"
    by (simp add: unused_stage_contact valid_preview_def)
  have none: "POST get_request (unused_name ?S ''stage'') = None"
    by (simp add: get_request_def)
  have pp: "parse_params ContactPreview ?S rq [] Map.empty = (Inr (), Map.empty)" for rq
    by (simp add: ContactPreview_def FormPreview_class_def FormPreview_init_def)
  have same: "?S\<lparr>state := Map.empty\<rparr> = ?S"
    by (simp add: FormPreview_init_def)
  have m1: "lower (http_method honest_confirm) = ''post''"
    by (simp add: honest_confirm_def lower_def lower_char_def)
  have m2: "http_method get_request = ''GET''"
    by (simp add: get_request_def)
  have ft: "form_template ContactPreview = ''formtools/form.html''"
    by (simp add: ContactPreview_def FormPreview_class_def)
  have r: "render test_env rq t c s = t" for rq t c s
    by (simp add: test_env_def)
  note A = dispatch_by_stage_and_method [where self = ?S and request = honest_confirm
      and cls = ContactPreview and env = test_env and args = "[]" and kwargs = Map.empty]
  note B = dispatch_by_stage_and_method [where self = ?S and request = valid_preview
      and cls = ContactPreview and env = test_env and args = "[]" and kwargs = Map.empty]
  note C = dispatch_by_stage_and_method [where self = ?S and request = get_request
      and cls = ContactPreview and env = test_env and args = "[]" and kwargs = Map.empty]
  from A two have s1: "stage_of ?S honest_confirm = ''post''" by blast
  from B one have s2: "stage_of ?S valid_preview = ''preview''" by blast
  from A pp [of honest_confirm]
  have c1: "FormPreview_call ContactPreview test_env ?S honest_confirm [] Map.empty =
       after_calls [Call_parse_params, Call_getattr ''post_post'']
         (post_post ContactPreview test_env ?S honest_confirm)"
    by (simp add: s1 m1 same Let_def)
  from C pp [of get_request] m2 none
  have c2: "FormPreview_call ContactPreview test_env ?S get_request [] Map.empty =
       (Inr ''formtools/form.html'', ?S,
        [Call_parse_params, Call_getattr ''preview_get'', Call_preview_get,
         Call_render ''formtools/form.html''])"
    by (simp add: same ft r)
  from s1 two s2 c1 c2 show ?thesis by simp
qed

subsection \<open>Not-found errors of the dispatcher\<close>

text \<open>
  \<open>parse_params\<close> is the first call of the dispatcher. When it raises, its exception is
  the dispatcher's and nothing else is called. When it returns and the object has no
  attribute of the name asked for, the dispatcher raises \<open>Http404\<close>. When no hook called
  by a handler raises \<open>Http404\<close>, these are the only ways to that exception.
\<close>

lemma FormPreview_call_parse_params_first:
  "\<exists>evs. snd (snd (FormPreview_call cls env self request args kwargs)) = Call_parse_params # evs"
  by (simp add: FormPreview_call_def Let_def after_calls_def case_prod_beta
        split: sum.splits option.splits prod.splits)

lemma FormPreview_call_parse_params_raises:
  "parse_params cls self request args kwargs = (Inl e, st) \<Longrightarrow>
     FormPreview_call cls env self request args kwargs =
       (Inl e, self\<lparr>state := st\<rparr>, [Call_parse_params])"
  by (simp add: FormPreview_call_def Let_def)

lemma FormPreview_call_no_attribute:
  "parse_params cls self request args kwargs = (Inr u, st) \<Longrightarrow>
   getattr cls (stage_of self request @ ''_'' @ lower (http_method request)) = None \<Longrightarrow>
     FormPreview_call cls env self request args kwargs =
       (Inl Http404, self\<lparr>state := st\<rparr>,
        [Call_parse_params,
         Call_getattr (stage_of self request @ ''_'' @ lower (http_method request))])"
  by (simp add: FormPreview_call_def Let_def)

lemma handlers_never_Http404:
  assumes "\<forall>s rq f c. fst (process_preview cls s rq f c) \<noteq> Inl Http404"
      and "\<forall>h s rq. failed_hash cls = Some h \<longrightarrow> fst (h s rq) \<noteq> Inl Http404"
      and "\<forall>h s rq cd. done_hook cls = Some h \<longrightarrow> fst (h s rq cd) \<noteq> Inl Http404"
  shows "fst (call_attribute cls env self a request) \<noteq> Inl Http404"
proof -
  have pv: "fst (preview_post cls env s rq) \<noteq> Inl Http404" for s rq
    using assms(1) [rule_format, of s rq "preview_post_form cls s rq"
        "get_context cls s rq (preview_post_form cls s rq)"]
    by (auto simp: preview_post_def Let_def split: prod.splits sum.splits)
  have fh: "fst (call_failed_hash cls env s rq) \<noteq> Inl Http404" for s rq
  proof (cases "failed_hash cls")
    case None
    then show ?thesis by (simp add: call_failed_hash_def pv)
  next
    case (Some h)
    with assms(2) [rule_format, OF Some, of s rq] show ?thesis
      by (auto simp: call_failed_hash_def split: prod.splits)
  qed
  have dn: "fst (call_done cls s rq cd) \<noteq> Inl Http404" for s rq cd
  proof (cases "done_hook cls")
    case None
    then show ?thesis by (simp add: call_done_def)
  next
    case (Some h)
    with assms(3) [rule_format, OF Some, of s rq cd] show ?thesis
      by (auto simp: call_done_def split: prod.splits)
  qed
  have pp: "fst (post_post cls env s rq) \<noteq> Inl Http404" for s rq
    by (simp add: post_post_def Let_def after_calls_def case_prod_beta fh dn)
  show ?thesis
    by (cases a) (simp_all add: call_attribute_def preview_get_def Let_def pv pp)
qed

lemma FormPreview_call_Http404_iff:
  assumes "\<forall>s rq f c. fst (process_preview cls s rq f c) \<noteq> Inl Http404"
      and "\<forall>h s rq. failed_hash cls = Some h \<longrightarrow> fst (h s rq) \<noteq> Inl Http404"
      and "\<forall>h s rq cd. done_hook cls = Some h \<longrightarrow> fst (h s rq cd) \<noteq> Inl Http404"
  shows "fst (FormPreview_call cls env self request args kwargs) = Inl Http404 \<longleftrightarrow>
           fst (parse_params cls self request args kwargs) = Inl Http404
           \<or> (\<exists>u. fst (parse_params cls self request args kwargs) = Inr u)
              \<and> getattr cls (stage_of self request @ ''_'' @ lower (http_method request)) = None"
proof -
  obtain r st where pp: "parse_params cls self request args kwargs = (r, st)"
    by (cases "parse_params cls self request args kwargs") auto
  show ?thesis
  proof (cases r)
    case (Inl e)
    with pp show ?thesis
      by (simp add: FormPreview_call_parse_params_raises)
  next
    case (Inr u)
    show ?thesis
    proof (cases "getattr cls (stage_of self request @ ''_'' @ lower (http_method request))")
      case None
      with pp Inr show ?thesis
        by (simp add: FormPreview_call_no_attribute)
    next
      case (Some a)
      have "fst (call_attribute cls env (self\<lparr>state := st\<rparr>) a request) \<noteq> Inl Http404"
        using assms by (rule handlers_never_Http404)
      with pp Inr Some show ?thesis
        by (simp add: FormPreview_call_def Let_def after_calls_def case_prod_beta)
    qed
  qed
qed

text \<open>
  C7. On a request whose HTTP method is \<open>TEMPLATE\<close> and that has no stage field,
  \<open>parse_params\<close> returns and the name asked for is \<open>preview_template\<close>. No handler has
  that name, but the class attribute of line 14 has it, so \<open>getattr\<close> returns the
  template's path, and calling it raises \<open>TypeError\<close>: the dispatcher does not raise
  \<open>Http404\<close>.
\<close>

theorem template_method_raises_TypeError:
  "parse_params ContactPreview (FormPreview_init contact_form) template_request [] Map.empty =
     (Inr (), Map.empty)
   \<and> stage_of (FormPreview_init contact_form) template_request @ ''_''
        @ lower (http_method template_request) = ''preview_template''
   \<and> getattr ContactPreview ''preview_template'' = Some (Str ''formtools/preview.html'')
   \<and> FormPreview_call ContactPreview test_env (FormPreview_init contact_form) template_request
        [] Map.empty =
       (Inl (TypeError ''str object is not callable''), FormPreview_init contact_form,
        [Call_parse_params, Call_getattr ''preview_template''])"
  by (simp add: FormPreview_call_def stage_of_def template_request_def lower_def lower_char_def
        getattr_def call_attribute_def after_calls_def Let_def ContactPreview_def
        FormPreview_class_def FormPreview_init_def)

subsection \<open>The state dictionary\<close>

lemma preview_post_keeps_object:
  assumes "\<forall>s rq f c. snd (process_preview cls s rq f c) = state s"
  shows "fst (snd (preview_post cls env self request)) = self"
  using assms [rule_format, of self request "preview_post_form cls self request"
      "get_context cls self request (preview_post_form cls self request)"]
  by (auto simp: preview_post_def Let_def split: prod.splits sum.splits)

lemma post_post_keeps_object:
  assumes "\<forall>s rq f c. snd (process_preview cls s rq f c) = state s"
      and "\<forall>h s rq. failed_hash cls = Some h \<longrightarrow> snd (h s rq) = state s"
      and "\<forall>h s rq cd. done_hook cls = Some h \<longrightarrow> snd (h s rq cd) = state s"
  shows "fst (snd (post_post cls env self request)) = self"
proof -
  have fh: "fst (snd (call_failed_hash cls env self request)) = self"
  proof (cases "failed_hash cls")
    case None
    then show ?thesis
      by (simp add: call_failed_hash_def preview_post_keeps_object [where cls = cls, OF assms(1)])
  next
    case (Some h)
    with assms(2) [rule_format, OF Some, of self request] show ?thesis
      by (auto simp: call_failed_hash_def split: prod.splits)
  qed
  have dn: "snd (call_done cls self request cd) = self" for cd
  proof (cases "done_hook cls")
    case None
    then show ?thesis by (simp add: call_done_def)
  next
    case (Some h)
    with assms(3) [rule_format, OF Some, of self request cd] show ?thesis
      by (auto simp: call_done_def split: prod.splits)
  qed
  show ?thesis
    by (simp add: post_post_def Let_def after_calls_def case_prod_beta fh dn)
qed

lemma FormPreview_call_object:
  assumes "\<forall>s rq f c. snd (process_preview cls s rq f c) = state s"
      and "\<forall>h s rq. failed_hash cls = Some h \<longrightarrow> snd (h s rq) = state s"
      and "\<forall>h s rq cd. done_hook cls = Some h \<longrightarrow> snd (h s rq cd) = state s"
  shows "fst (snd (FormPreview_call cls env self request args kwargs)) =
           self\<lparr>state := snd (parse_params cls self request args kwargs)\<rparr>"
proof -
  obtain r st where pp: "parse_params cls self request args kwargs = (r, st)"
    by (cases "parse_params cls self request args kwargs") auto
  have attr: "fst (snd (call_attribute cls env s a request)) = s" for s a
    by (cases a)
       (simp_all add: call_attribute_def preview_get_def Let_def
          preview_post_keeps_object [where cls = cls, OF assms(1)]
          post_post_keeps_object [where cls = cls, OF assms])
  show ?thesis
    using pp attr
    by (simp add: FormPreview_call_def Let_def after_calls_def case_prod_beta
          split: sum.splits option.splits)
qed

text \<open>
  C9, as the code has it. \<open>__init__\<close> creates the state dictionary empty, and nothing
  resets it afterwards. For a class whose other hooks leave the dictionary alone, a call
  of the object leaves the dictionary as \<open>parse_params\<close> left it, and after a sequence of
  requests the object is the one that the \<open>parse_params\<close> calls of all the requests, each
  starting from the dictionary the one before left, have made of the first.
\<close>

theorem state_persists_across_requests:
  assumes "\<forall>s rq f c. snd (process_preview cls s rq f c) = state s"
      and "\<forall>h s rq. failed_hash cls = Some h \<longrightarrow> snd (h s rq) = state s"
      and "\<forall>h s rq cd. done_hook cls = Some h \<longrightarrow> snd (h s rq cd) = state s"
  shows "state (FormPreview_init f) = Map.empty
       \<and> fst (snd (FormPreview_call cls env self request args kwargs)) =
           self\<lparr>state := snd (parse_params cls self request args kwargs)\<rparr>
       \<and> snd (serve cls env self reqs) =
           foldl (\<lambda>s (rq, a, kw). s\<lparr>state := snd (parse_params cls s rq a kw)\<rparr>) self reqs"
proof -
  have "snd (serve cls env s reqs) =
          foldl (\<lambda>s (rq, a, kw). s\<lparr>state := snd (parse_params cls s rq a kw)\<rparr>) s reqs" for s
  proof (induction reqs arbitrary: s)
    case Nil
    show ?case by simp
  next
    case (Cons x reqs)
    obtain rq a kw where x: "x = (rq, a, kw)" by (cases x) auto
    have "snd (serve cls env s (x # reqs)) =
            snd (serve cls env (fst (snd (FormPreview_call cls env s rq a kw))) reqs)"
      by (simp add: x split: prod.splits)
    also have "\<dots> = snd (serve cls env (s\<lparr>state := snd (parse_params cls s rq a kw)\<rparr>) reqs)"
      by (simp add: FormPreview_call_object [where cls = cls, OF assms])
    finally show ?case
      by (simp add: Cons.IH x)
  qed
  then show ?thesis
    by (simp add: FormPreview_call_object [where cls = cls, OF assms] FormPreview_init_def)
qed

theorem state_persists_across_requests_witness:
  "state (FormPreview_init contact_form) = Map.empty
   \<and> snd (serve UserPreview test_env (FormPreview_init contact_form)
            [(get_request, [], [''user_id'' \<mapsto> ''32'']), (honest_confirm, [], Map.empty)]) =
       \<lparr>form = contact_form, state = [''user_id'' \<mapsto> ''32'']\<rparr>"
proof -
  have a1: "\<forall>s rq f c. snd (process_preview UserPreview s rq f c) = state s"
    by (simp add: UserPreview_def ContactPreview_def FormPreview_class_def)
  have a2: "\<forall>h s rq. failed_hash UserPreview = Some h \<longrightarrow> snd (h s rq) = state s"
    by (simp add: UserPreview_def ContactPreview_def FormPreview_class_def)
  have a3: "\<forall>h s rq cd. done_hook UserPreview = Some h \<longrightarrow> snd (h s rq cd) = state s"
    by (auto simp: UserPreview_def ContactPreview_def FormPreview_class_def)
  have pp: "parse_params UserPreview s rq a kw = (Inr (), state s ++ kw)" for s rq a kw
    by (simp add: UserPreview_def)
  from state_persists_across_requests [where cls = UserPreview and f = contact_form
        and self = "FormPreview_init contact_form" and env = test_env
        and reqs = "[(get_request, [], [''user_id'' \<mapsto> ''32'']), (honest_confirm, [], Map.empty)]",
      OF a1 a2 a3]
  show ?thesis
    by (simp add: pp FormPreview_init_def)
qed

text \<open>
  C9, as it is stated, fails: after a request whose \<open>parse_params\<close> saved \<open>user_id\<close>, the
  dictionary the next request starts from is not empty, and \<open>user_id\<close> is still in it
  after a second request that saved nothing.
\<close>

theorem state_not_fresh_counterexample:
  "state (snd (serve UserPreview test_env (FormPreview_init contact_form)
                 [(get_request, [], [''user_id'' \<mapsto> ''32''])])) \<noteq> Map.empty
   \<and> state (snd (serve UserPreview test_env (FormPreview_init contact_form)
                 [(get_request, [], [''user_id'' \<mapsto> ''32'']), (get_request, [], Map.empty)]))
        ''user_id'' = Some ''32''"
proof -
  have call: "fst (snd (FormPreview_call UserPreview test_env s get_request a kw)) =
                s\<lparr>state := state s ++ kw\<rparr>" for s a kw
    by (simp add: FormPreview_call_def stage_of_def get_request_def lower_def lower_char_def
          getattr_def call_attribute_def preview_get_def after_calls_def Let_def
          UserPreview_def ContactPreview_def FormPreview_class_def)
  have one: "snd (serve UserPreview test_env (FormPreview_init contact_form)
                 [(get_request, [], [''user_id'' \<mapsto> ''32''])]) =
             \<lparr>form = contact_form, state = [''user_id'' \<mapsto> ''32'']\<rparr>"
    using call [of "FormPreview_init contact_form" "[]" "[''user_id'' \<mapsto> ''32'']"]
    by (auto simp: FormPreview_init_def split: prod.splits)
  have two: "snd (serve UserPreview test_env (FormPreview_init contact_form)
                 [(get_request, [], [''user_id'' \<mapsto> ''32'']), (get_request, [], Map.empty)]) =
             \<lparr>form = contact_form, state = [''user_id'' \<mapsto> ''32'']\<rparr>"
    using call [of "FormPreview_init contact_form" "[]" "[''user_id'' \<mapsto> ''32'']"]
      call [of "\<lparr>form = contact_form, state = [''user_id'' \<mapsto> ''32'']\<rparr>" "[]" Map.empty]
    by (auto simp: FormPreview_init_def split: prod.splits)
  have "[''user_id'' \<mapsto> ''32''] \<noteq> (Map.empty :: string \<rightharpoonup> string)"
    by simp
  with one two show ?thesis by simp
qed

end
